theory Spec2Isabelle
  imports Main "HOL-Library.Sublist"
begin

section \<open>Python values, errors and decimal conversion\<close>

text \<open>
  The service is one Python module, \<^verbatim>\<open>src/app/main.py\<close>. Python strings are
  modelled as \<^typ>\<open>string\<close> and Python's unbounded integers as \<^typ>\<open>int\<close>.
  Exceptions are values of \<open>py_error\<close>; an operation that may raise returns
  \<open>py_error + 'a\<close>, with \<open>Inl\<close> for the raised exception.  Memory is not bounded in
  the model.
\<close>

datatype py_error = ValueError | NameError | SyntaxError

datatype py_value = PyStr string | PyInt int

definition digit_char :: "nat \<Rightarrow> char" where
  "digit_char d = ''0123456789'' ! (d mod 10)"

definition is_digit :: "char \<Rightarrow> bool" where
  "is_digit c = (c \<in> set ''0123456789'')"

fun str_nat :: "nat \<Rightarrow> string" where
  "str_nat n = (if n < 10 then [digit_char n] else str_nat (n div 10) @ [digit_char n])"

declare str_nat.simps [simp del]

definition str_int :: "int \<Rightarrow> string" where
  "str_int i = (if i < 0 then CHR ''-'' # str_nat (nat (- i)) else str_nat (nat i))"

text \<open>
  \<open>str_int\<close> is the decimal text of an integer.  The interpreter converts between
  integers and decimal text only up to a number of digits, 4300 unless it is configured
  otherwise, which the module does not do: beyond it \<open>str\<close> of an integer and \<open>int\<close> of a
  string raise \<open>ValueError\<close>.
\<close>

definition int_max_str_digits :: nat where
  "int_max_str_digits = 4300"

definition within_str_digits :: "int \<Rightarrow> bool" where
  "within_str_digits i = (length (str_nat (nat \<bar>i\<bar>)) \<le> int_max_str_digits)"

definition py_str :: "int \<Rightarrow> py_error + string" where
  "py_str i = (if within_str_digits i then Inr (str_int i) else Inl ValueError)"

text \<open>\<open>format(v, "")\<close>, which a replacement field without format spec applies.\<close>

fun format_value :: "py_value \<Rightarrow> py_error + string" where
  "format_value (PyStr s) = Inr s"
| "format_value (PyInt i) = py_str i"

section \<open>Formatted string literals\<close>

text \<open>
  \<open>_render_page\<close> returns one formatted string literal.  Its text is kept as the
  source has it, doubled braces included, and evaluated as Python does: \<open>{{\<close> and
  \<open>}}\<close> stand for one brace, \<open>{name}\<close> is replaced by the formatted value of the
  variable, a single \<open>}\<close> or an unclosed field is a syntax error.  Replacement
  fields are bare names, the only form this template uses.
\<close>

datatype part = Chr char | Field string

datatype fstate = Text | Opened | InField string | Closed

fun cons_part :: "part \<Rightarrow> py_error + part list \<Rightarrow> py_error + part list" where
  "cons_part p (Inl e) = Inl e"
| "cons_part p (Inr ps) = Inr (p # ps)"

fun fparse :: "fstate \<Rightarrow> string \<Rightarrow> py_error + part list" where
  "fparse Text [] = Inr []"
| "fparse Text (c # cs) =
     (if c = CHR ''{'' then fparse Opened cs
      else if c = CHR ''}'' then fparse Closed cs
      else cons_part (Chr c) (fparse Text cs))"
| "fparse Opened [] = Inl SyntaxError"
| "fparse Opened (c # cs) =
     (if c = CHR ''{'' then cons_part (Chr c) (fparse Text cs)
      else if c = CHR ''}'' then Inl SyntaxError
      else fparse (InField [c]) cs)"
| "fparse (InField n) [] = Inl SyntaxError"
| "fparse (InField n) (c # cs) =
     (if c = CHR ''}'' then cons_part (Field n) (fparse Text cs)
      else if c = CHR ''{'' then Inl SyntaxError
      else fparse (InField (n @ [c])) cs)"
| "fparse Closed [] = Inl SyntaxError"
| "fparse Closed (c # cs) =
     (if c = CHR ''}'' then cons_part (Chr c) (fparse Text cs) else Inl SyntaxError)"

fun emit :: "string \<Rightarrow> py_error + string \<Rightarrow> py_error + string" where
  "emit s (Inl e) = Inl e"
| "emit s (Inr r) = Inr (s @ r)"

fun feval :: "part list \<Rightarrow> (string \<times> py_value) list \<Rightarrow> py_error + string" where
  "feval [] env = Inr []"
| "feval (Chr c # ps) env = emit [c] (feval ps env)"
| "feval (Field n # ps) env =
     (case map_of env n of
        None \<Rightarrow> Inl NameError
      | Some v \<Rightarrow>
          (case format_value v of Inl e \<Rightarrow> Inl e | Inr s \<Rightarrow> emit s (feval ps env)))"

definition fstring :: "string \<Rightarrow> (string \<times> py_value) list \<Rightarrow> py_error + string" where
  "fstring src env = (case fparse Text src of Inl e \<Rightarrow> Inl e | Inr ps \<Rightarrow> feval ps env)"

section \<open>The page template\<close>

text \<open>
  The literal of \<open>_render_page\<close>, lines 76 to 193 of the module, cut at its two
  replacement fields.  The backslash after the opening quotes continues the line, so
  the text starts at \<open><!DOCTYPE html>\<close>; it ends at \<open></html>\<close> without a newline.
\<close>

definition template_head :: string where
  \<open>template_head =
    ''<!DOCTYPE html>\<newline>'' @
    ''<html lang="en">\<newline>'' @
    ''<head>\<newline>'' @
    ''  <meta charset="utf-8">\<newline>'' @
    ''  <meta name="viewport" content="width=device-width, initial-scale=1">\<newline>'' @
    ''  <title>AKS PoC</title>\<newline>'' @
    ''  <style>\<newline>'' @
    ''    *,*::before,*::after{{box-sizing:border-box;margin:0;padding:0}}\<newline>'' @
    ''\<newline>'' @
    ''    body{{\<newline>'' @
    ''      min-height:100vh;\<newline>'' @
    ''      display:flex;\<newline>'' @
    ''      align-items:center;\<newline>'' @
    ''      justify-content:center;\<newline>'' @
    ''      font-family:-apple-system,BlinkMacSystemFont,"Segoe UI",Roboto,\<newline>'' @
    ''                   "Helvetica Neue",Arial,sans-serif;\<newline>'' @
    ''      background:linear-gradient(135deg,#0f0c29,#302b63,#24243e);\<newline>'' @
    ''      color:#e2e8f0;\<newline>'' @
    ''      padding:1rem;\<newline>'' @
    ''    }}\<newline>'' @
    ''\<newline>'' @
    ''    .card{{\<newline>'' @
    ''      background:rgba(255,255,255,.06);\<newline>'' @
    ''      backdrop-filter:blur(12px);\<newline>'' @
    ''      border:1px solid rgba(255,255,255,.10);\<newline>'' @
    ''      border-radius:1.25rem;\<newline>'' @
    ''      padding:3rem 3.5rem;\<newline>'' @
    ''      max-width:480px;\<newline>'' @
    ''      width:100%;\<newline>'' @
    ''      text-align:center;\<newline>'' @
    ''      box-shadow:0 8px 32px rgba(0,0,0,.35);\<newline>'' @
    ''    }}\<newline>'' @
    ''\<newline>'' @
    ''    .badge{{\<newline>'' @
    ''      display:inline-block;\<newline>'' @
    ''      font-size:.7rem;\<newline>'' @
    ''      font-weight:600;\<newline>'' @
    ''      letter-spacing:.08em;\<newline>'' @
    ''      text-transform:uppercase;\<newline>'' @
    ''      background:rgba(99,102,241,.25);\<newline>'' @
    ''      color:#a5b4fc;\<newline>'' @
    ''      padding:.3rem .85rem;\<newline>'' @
    ''      border-radius:999px;\<newline>'' @
    ''      margin-bottom:1.5rem;\<newline>'' @
    ''    }}\<newline>'' @
    ''\<newline>'' @
    ''    h1{{\<newline>'' @
    ''      font-size:2.4rem;\<newline>'' @
    ''      font-weight:700;\<newline>'' @
    ''      background:linear-gradient(90deg,#818cf8,#c084fc);\<newline>'' @
    ''      -webkit-background-clip:text;\<newline>'' @
    ''      -webkit-text-fill-color:transparent;\<newline>'' @
    ''      margin-bottom:.5rem;\<newline>'' @
    ''    }}\<newline>'' @
    ''\<newline>'' @
    ''    .subtitle{{\<newline>'' @
    ''      font-size:1rem;\<newline>'' @
    ''      color:#94a3b8;\<newline>'' @
    ''      margin-bottom:2.5rem;\<newline>'' @
    ''    }}\<newline>'' @
    ''\<newline>'' @
    ''    .meta{{\<newline>'' @
    ''      display:flex;\<newline>'' @
    ''      flex-direction:column;\<newline>'' @
    ''      gap:.75rem;\<newline>'' @
    ''    }}\<newline>'' @
    ''\<newline>'' @
    ''    .meta-row{{\<newline>'' @
    ''      display:flex;\<newline>'' @
    ''      justify-content:space-between;\<newline>'' @
    ''      align-items:center;\<newline>'' @
    ''      background:rgba(255,255,255,.04);\<newline>'' @
    ''      padding:.65rem 1rem;\<newline>'' @
    ''      border-radius:.6rem;\<newline>'' @
    ''      font-size:.875rem;\<newline>'' @
    ''    }}\<newline>'' @
    ''\<newline>'' @
    ''    .meta-label{{\<newline>'' @
    ''      color:#64748b;\<newline>'' @
    ''      font-weight:500;\<newline>'' @
    ''    }}\<newline>'' @
    ''\<newline>'' @
    ''    .meta-value{{\<newline>'' @
    ''      color:#cbd5e1;\<newline>'' @
    ''      font-family:"SF Mono",SFMono-Regular,Menlo,Consolas,monospace;\<newline>'' @
    ''      font-size:.82rem;\<newline>'' @
    ''    }}\<newline>'' @
    ''\<newline>'' @
    ''    .footer{{\<newline>'' @
    ''      margin-top:2rem;\<newline>'' @
    ''      font-size:.7rem;\<newline>'' @
    ''      color:#475569;\<newline>'' @
    ''    }}\<newline>'' @
    ''  </style>\<newline>'' @
    ''</head>\<newline>'' @
    ''<body>\<newline>'' @
    ''  <main class="card">\<newline>'' @
    ''    <span class="badge">AKS PoC Service</span>\<newline>'' @
    ''    <h1>Hello, World!</h1>\<newline>'' @
    ''    <p class="subtitle">FastAPI + Uvicorn on Kubernetes</p>\<newline>'' @
    ''    <div class="meta">\<newline>'' @
    ''      <div class="meta-row">\<newline>'' @
    ''        <span class="meta-label">Server Time</span>\<newline>'' @
    ''        <span class="meta-value">''\<close>

definition template_mid :: string where
  \<open>template_mid =
    ''</span>\<newline>'' @
    ''      </div>\<newline>'' @
    ''      <div class="meta-row">\<newline>'' @
    ''        <span class="meta-label">Port</span>\<newline>'' @
    ''        <span class="meta-value">''\<close>

definition template_tail :: string where
  \<open>template_tail =
    ''</span>\<newline>'' @
    ''      </div>\<newline>'' @
    ''      <div class="meta-row">\<newline>'' @
    ''        <span class="meta-label">Runtime</span>\<newline>'' @
    ''        <span class="meta-value">Python 3.12</span>\<newline>'' @
    ''      </div>\<newline>'' @
    ''    </div>\<newline>'' @
    ''    <p class="footer">Running as non-root &middot; Ready for production</p>\<newline>'' @
    ''  </main>\<newline>'' @
    ''</body>\<newline>'' @
    ''</html>''\<close>

definition template :: string where
  "template = template_head @ ''{server_time}'' @ template_mid @ ''{port}'' @ template_tail"

text \<open>
  \<open>_render_page(*, server_time: str, port: int) -> str\<close>.  A name cannot begin with an
  underscore here, so \<open>_render_page\<close> is \<open>render_page\<close> and \<open>_on_startup\<close> is
  \<open>on_startup\<close>.
\<close>

definition render_page :: "string \<Rightarrow> int \<Rightarrow> py_error + string" where
  "render_page server_time port =
     fstring template [(''server_time'', PyStr server_time), (''port'', PyInt port)]"

section \<open>Configuration\<close>

text \<open>
  \<open>PORT: int = int(os.getenv("PORT", "8080"))\<close>.  The environment is an association
  list of names and values, the values in their UTF-8 bytes.  \<open>int\<close> of a string strips
  white space, takes an optional sign, then decimal digits in which single underscores
  may separate digits, at most \<open>int_max_str_digits\<close> of them; anything else raises
  \<open>ValueError\<close>.  A string with a character beyond ASCII is first rewritten: decimal
  digits and white space of any script become their ASCII counterparts.  That table
  belongs to the interpreter, not to the module, and is the parameter \<open>to_ascii\<close>.
\<close>

definition is_space :: "char \<Rightarrow> bool" where
  "is_space c = (c \<in> set [CHR 0x09, CHR 0x0A, CHR 0x0B, CHR 0x0C, CHR 0x0D, CHR 0x20])"

definition is_ascii :: "string \<Rightarrow> bool" where
  "is_ascii s = list_all (\<lambda>c. (of_char c :: nat) < 128) s"

definition strip :: "string \<Rightarrow> string" where
  "strip s = rev (dropWhile is_space (rev (dropWhile is_space s)))"

definition digit_val :: "char \<Rightarrow> nat" where
  "digit_val c = of_char c - 48"

fun int_digits :: "nat \<Rightarrow> string \<Rightarrow> nat option" where
  "int_digits acc [] = Some acc"
| "int_digits acc [c] = (if is_digit c then Some (10 * acc + digit_val c) else None)"
| "int_digits acc (c # d # cs) =
     (if is_digit c then int_digits (10 * acc + digit_val c) (d # cs)
      else if c = CHR ''_'' \<and> is_digit d then int_digits (10 * acc + digit_val d) cs
      else None)"

definition int_literal :: "string \<Rightarrow> nat option" where
  "int_literal s =
     (case s of [] \<Rightarrow> None
      | c # cs \<Rightarrow> if is_digit c then int_digits (digit_val c) cs else None)"

definition unsigned :: "string \<Rightarrow> string" where
  "unsigned t =
     (case t of [] \<Rightarrow> [] | c # cs \<Rightarrow> if c = CHR ''-'' \<or> c = CHR ''+'' then cs else t)"

definition py_int :: "(string \<Rightarrow> string) \<Rightarrow> string \<Rightarrow> py_error + int" where
  "py_int to_ascii s =
     (let t = strip (if is_ascii s then s else to_ascii s);
          neg = (t \<noteq> [] \<and> hd t = CHR ''-'');
          digits = unsigned t
      in case int_literal digits of
           None \<Rightarrow> Inl ValueError
         | Some n \<Rightarrow>
             if int_max_str_digits < length (filter is_digit digits) then Inl ValueError
             else Inr (if neg then - int n else int n))"

definition getenv :: "(string \<times> string) list \<Rightarrow> string \<Rightarrow> string \<Rightarrow> string" where
  "getenv environ key dflt = (case map_of environ key of None \<Rightarrow> dflt | Some v \<Rightarrow> v)"

definition read_port :: "(string \<Rightarrow> string) \<Rightarrow> (string \<times> string) list \<Rightarrow> py_error + int" where
  "read_port to_ascii environ = py_int to_ascii (getenv environ ''PORT'' ''8080'')"

section \<open>Clock and time format\<close>

text \<open>
  \<open>datetime.now(timezone.utc)\<close> is an input of the handler: the fields of the current
  UTC time.  \<open>strftime\<close> copies the format and replaces the directives the module uses.
\<close>

record datetime =
  year :: nat
  month :: nat
  day :: nat
  hour :: nat
  minute :: nat
  second :: nat

definition valid_datetime :: "datetime \<Rightarrow> bool" where
  "valid_datetime dt =
     (1 \<le> year dt \<and> year dt \<le> 9999 \<and> 1 \<le> month dt \<and> month dt \<le> 12 \<and>
      1 \<le> day dt \<and> day dt \<le> 31 \<and> hour dt < 24 \<and> minute dt < 60 \<and> second dt < 60)"

definition zfill :: "nat \<Rightarrow> string \<Rightarrow> string" where
  "zfill w s = replicate (w - length s) CHR ''0'' @ s"

definition directive :: "datetime \<Rightarrow> char \<Rightarrow> string" where
  "directive dt d =
     (if d = CHR ''Y'' then zfill 4 (str_nat (year dt))
      else if d = CHR ''m'' then zfill 2 (str_nat (month dt))
      else if d = CHR ''d'' then zfill 2 (str_nat (day dt))
      else if d = CHR ''H'' then zfill 2 (str_nat (hour dt))
      else if d = CHR ''M'' then zfill 2 (str_nat (minute dt))
      else if d = CHR ''S'' then zfill 2 (str_nat (second dt))
      else if d = CHR ''%'' then ''%''
      else [CHR ''%'', d])"

fun strftime :: "datetime \<Rightarrow> string \<Rightarrow> string" where
  "strftime dt [] = []"
| "strftime dt [c] = [c]"
| "strftime dt (c # d # cs) =
     (if c = CHR ''%'' then directive dt d @ strftime dt cs else c # strftime dt (d # cs))"

section \<open>Logging, requests and responses\<close>

text \<open>
  The logger \<open>app\<close> works at level \<open>INFO\<close>, so every \<open>logger.info\<close> emits one record;
  the state of the process is the configured port and the records emitted so far.
  The arrow of the request line is written as its three UTF-8 bytes.
\<close>

record log_record =
  levelname :: string
  logger_name :: string
  message :: string

record server_state =
  PORT :: int
  emitted :: "log_record list"

definition logger_info :: "string \<Rightarrow> server_state \<Rightarrow> server_state" where
  "logger_info msg st =
     st\<lparr>emitted := emitted st @ [\<lparr>levelname = ''INFO'', logger_name = ''app'', message = msg\<rparr>]\<rparr>"

record request =
  request_method :: string
  path :: string

datatype content = JSON "(string \<times> string) list" | HTML string

record response =
  status_code :: int
  media_type :: string
  body :: content

text \<open>The response classes of the framework: status 200 and the class's media type.\<close>

definition JSONResponse :: "(string \<times> string) list \<Rightarrow> response" where
  "JSONResponse c = \<lparr>status_code = 200, media_type = ''application/json'', body = JSON c\<rparr>"

definition HTMLResponse :: "string \<Rightarrow> response" where
  "HTMLResponse c = \<lparr>status_code = 200, media_type = ''text/html'', body = HTML c\<rparr>"

section \<open>Middleware, routes and startup\<close>

text \<open>
  \<open>log_requests\<close> awaits the downstream handler, logs
  \<open>"%s %s \<rightarrow> %s"\<close> of method, path and status code, and returns the response.  An
  exception of the downstream handler leaves the middleware before the log call.  The
  log calls format a status code, an HTTP status code of three digits, and the port that
  \<open>int\<close> accepted at startup; their decimal text is \<open>str_int\<close>.
\<close>

definition arrow :: string where
  "arrow = [CHR 0xE2, CHR 0x86, CHR 0x92]"

definition request_line :: "request \<Rightarrow> response \<Rightarrow> string" where
  "request_line rq rs =
     request_method rq @ '' '' @ path rq @ '' '' @ arrow @ '' '' @ str_int (status_code rs)"

definition log_requests ::
  "request \<Rightarrow> (request \<Rightarrow> server_state \<Rightarrow> (py_error + response) \<times> server_state)
     \<Rightarrow> server_state \<Rightarrow> (py_error + response) \<times> server_state" where
  "log_requests rq call_next st =
     (case call_next rq st of
        (Inl e, st1) \<Rightarrow> (Inl e, st1)
      | (Inr rs, st1) \<Rightarrow> (Inr rs, logger_info (request_line rq rs) st1))"

definition root :: "datetime \<Rightarrow> server_state \<Rightarrow> py_error + string" where
  "root now st =
     (let now_utc = strftime now ''%Y-%m-%d %H:%M:%S UTC''
      in render_page now_utc (PORT st))"

definition healthz :: "(string \<times> string) list" where
  "healthz = [(''status'', ''ok'')]"

text \<open>
  The two routes of the module.  What the framework answers to any other request (not
  found, method not allowed) is the parameter \<open>other\<close>.
\<close>

definition router ::
  "(request \<Rightarrow> response) \<Rightarrow> datetime \<Rightarrow> request \<Rightarrow> server_state
     \<Rightarrow> (py_error + response) \<times> server_state" where
  "router other now rq st =
     (if request_method rq = ''GET'' \<and> path rq = ''/'' then
        (case root now st of Inl e \<Rightarrow> (Inl e, st) | Inr doc \<Rightarrow> (Inr (HTMLResponse doc), st))
      else if request_method rq = ''GET'' \<and> path rq = ''/healthz'' then (Inr (JSONResponse healthz), st)
      else (Inr (other rq), st))"

definition app ::
  "(request \<Rightarrow> response) \<Rightarrow> datetime \<Rightarrow> request \<Rightarrow> server_state
     \<Rightarrow> (py_error + response) \<times> server_state" where
  "app other now rq st = log_requests rq (router other now) st"

definition on_startup :: "server_state \<Rightarrow> server_state" where
  "on_startup st = logger_info (''Listening on http://0.0.0.0:'' @ str_int (PORT st) @ ''/'') st"

text \<open>
  Process start: the module is imported, which reads the port, then the startup hook
  runs, then requests are served one after the other, each with the clock value it sees.
\<close>

definition startup :: "(string \<Rightarrow> string) \<Rightarrow> (string \<times> string) list \<Rightarrow> py_error + server_state" where
  "startup to_ascii environ =
     (case read_port to_ascii environ of
        Inl e \<Rightarrow> Inl e
      | Inr p \<Rightarrow> Inr (on_startup \<lparr>PORT = p, emitted = []\<rparr>))"

fun serve :: "(request \<Rightarrow> response) \<Rightarrow> (datetime \<times> request) list \<Rightarrow> server_state \<Rightarrow> server_state" where
  "serve other [] st = st"
| "serve other ((now, rq) # rqs) st = serve other rqs (snd (app other now rq st))"

section \<open>Properties of documents and strings\<close>

text \<open>The text a literal fragment stands for: doubled braces halved.\<close>

fun unbrace :: "string \<Rightarrow> string" where
  "unbrace (c # d # cs) =
     (if (c = CHR ''{'' \<or> c = CHR ''}'') \<and> d = c then c # unbrace cs else c # unbrace (d # cs))"
| "unbrace cs = cs"

fun escaped :: "string \<Rightarrow> bool" where
  "escaped [] = True"
| "escaped [c] = (c \<noteq> CHR ''{'' \<and> c \<noteq> CHR ''}'')"
| "escaped (c # d # cs) =
     (if c = CHR ''{'' \<or> c = CHR ''}'' then d = c \<and> escaped cs else escaped (d # cs))"

fun prepend :: "part list \<Rightarrow> py_error + part list \<Rightarrow> py_error + part list" where
  "prepend ps (Inl e) = Inl e"
| "prepend ps (Inr qs) = Inr (ps @ qs)"

text \<open>
  Well-formed HTML with a single root: the tags of the document, read from \<open><\<close> to
  \<open>>\<close>, nest properly, void elements apart; the one outermost element is \<open>html\<close>, and
  only declarations stand outside it.
\<close>

datatype tag = StartTag string | EndTag string | Declaration string

definition tag_of :: "string \<Rightarrow> tag" where
  "tag_of inner =
     (case inner of
        [] \<Rightarrow> StartTag []
      | c # cs \<Rightarrow>
          if c = CHR ''/'' then EndTag (takeWhile (\<lambda>x. \<not> is_space x) cs)
          else if c = CHR ''!'' then Declaration cs
          else StartTag (takeWhile (\<lambda>x. \<not> is_space x) inner))"

fun scan_step :: "char \<Rightarrow> string option \<times> tag list \<Rightarrow> string option \<times> tag list" where
  "scan_step c (None, out) = (if c = CHR ''<'' then (Some [], out) else (None, out))"
| "scan_step c (Some inner, out) =
     (if c = CHR ''>'' then (None, tag_of inner # out) else (Some (inner @ [c]), out))"

definition html_tags :: "string \<Rightarrow> tag list option" where
  "html_tags doc =
     (case fold scan_step doc (None, []) of
        (None, out) \<Rightarrow> Some (rev out)
      | (Some inner, out) \<Rightarrow> None)"

definition void_elements :: "string list" where
  "void_elements =
     [''area'', ''base'', ''br'', ''col'', ''embed'', ''hr'', ''img'', ''input'',
      ''link'', ''meta'', ''source'', ''track'', ''wbr'']"

fun nested :: "string list \<Rightarrow> bool \<Rightarrow> tag list \<Rightarrow> bool" where
  "nested stack seen [] = (stack = [] \<and> seen)"
| "nested stack seen (Declaration d # ts) = nested stack seen ts"
| "nested stack seen (StartTag n # ts) =
     (if n \<in> set void_elements then stack \<noteq> [] \<and> nested stack seen ts
      else if stack = [] then \<not> seen \<and> n = ''html'' \<and> nested [n] True ts
      else nested (n # stack) seen ts)"
| "nested stack seen (EndTag n # ts) =
     (case stack of [] \<Rightarrow> False | m # rest \<Rightarrow> m = n \<and> nested rest seen ts)"

definition well_formed_html :: "string \<Rightarrow> bool" where
  "well_formed_html doc = (case html_tags doc of None \<Rightarrow> False | Some ts \<Rightarrow> nested [] False ts)"

text \<open>
  The text of an integer, as \<open>int\<close> takes it from an ASCII string: inside the white space
  an optional sign, then digits and underscores that begin and end with a digit and have
  no two underscores in a row, with no more digits than the limit.
\<close>

definition int_syntax :: "string \<Rightarrow> bool" where
  "int_syntax v =
     (let b = unsigned (strip v)
      in b \<noteq> [] \<and> is_digit (hd b) \<and> is_digit (last b) \<and>
         list_all (\<lambda>c. is_digit c \<or> c = CHR ''_'') b \<and> \<not> sublist ''__'' b \<and>
         length (filter is_digit b) \<le> int_max_str_digits)"

text \<open>The shape \<open>YYYY-MM-DD HH:MM:SS UTC\<close>: \<open>d\<close> in the pattern stands for a digit.\<close>

fun matches :: "string \<Rightarrow> string \<Rightarrow> bool" where
  "matches [] [] = True"
| "matches (p # ps) (c # cs) = ((if p = CHR ''d'' then is_digit c else c = p) \<and> matches ps cs)"
| "matches ps cs = False"

definition utc_stamp :: "string \<Rightarrow> bool" where
  "utc_stamp s = matches ''dddd-dd-dd dd:dd:dd UTC'' s"

section \<open>The rendered page\<close>

subsection \<open>Evaluation rules without conditionals\<close>

text \<open>
  The equations of \<open>escaped\<close> and \<open>unbrace\<close> decide by \<open>if\<close>.  On the long literals of
  the template the simplifier works with these rules instead, one for each case, which
  rewrite the text in a single pass.
\<close>

lemma escaped_plain: "c \<noteq> CHR ''{'' \<Longrightarrow> c \<noteq> CHR ''}'' \<Longrightarrow> escaped (c # cs) = escaped cs"
  by (cases cs) simp_all

lemma escaped_open: "escaped (CHR ''{'' # CHR ''{'' # cs) = escaped cs"
  by simp

lemma escaped_close: "escaped (CHR ''}'' # CHR ''}'' # cs) = escaped cs"
  by simp

lemma unbrace_plain: "c \<noteq> CHR ''{'' \<Longrightarrow> c \<noteq> CHR ''}'' \<Longrightarrow> unbrace (c # cs) = c # unbrace cs"
  by (cases cs) simp_all

lemma unbrace_open: "unbrace (CHR ''{'' # CHR ''{'' # cs) = CHR ''{'' # unbrace cs"
  by simp

lemma unbrace_close: "unbrace (CHR ''}'' # CHR ''}'' # cs) = CHR ''}'' # unbrace cs"
  by simp

lemma unbrace_Nil: "unbrace [] = []"
  by simp

lemma escaped_Nil: "escaped []"
  by simp

lemmas escaped_eval = escaped_plain escaped_open escaped_close escaped_Nil
lemmas unbrace_eval = unbrace_plain unbrace_open unbrace_close unbrace_Nil

lemma escaped_template_head: "escaped template_head"
  unfolding template_head_def by (simp del: escaped.simps add: escaped_eval)

lemma escaped_template_mid: "escaped template_mid"
  unfolding template_mid_def by (simp del: escaped.simps add: escaped_eval)

lemma escaped_template_tail: "escaped template_tail"
  unfolding template_tail_def by (simp del: escaped.simps add: escaped_eval)

subsection \<open>Parsing and evaluating the literal\<close>

lemma cons_part_prepend: "cons_part p (prepend ps r) = prepend (p # ps) r"
  by (cases r) simp_all

lemma prepend_Nil: "prepend [] r = r"
  by (cases r) simp_all

lemma fparse_escaped:
  "escaped s \<Longrightarrow> fparse Text (s @ rest) = prepend (map Chr (unbrace s)) (fparse Text rest)"
proof (induction s rule: escaped.induct)
  case 1
  show ?case by (simp add: prepend_Nil)
next
  case (2 c)
  then show ?case by (cases "fparse Text rest") simp_all
next
  case (3 c d cs)
  then show ?case by (auto simp: cons_part_prepend)
qed

lemma fparse_server_time:
  "fparse Text (''{server_time}'' @ rest) = cons_part (Field ''server_time'') (fparse Text rest)"
  by simp

lemma fparse_port:
  "fparse Text (''{port}'' @ rest) = cons_part (Field ''port'') (fparse Text rest)"
  by simp

lemma fparse_template:
  "fparse Text template =
     Inr (map Chr (unbrace template_head) @ Field ''server_time'' #
          map Chr (unbrace template_mid) @ Field ''port'' #
          map Chr (unbrace template_tail))"
proof -
  have tail: "fparse Text template_tail = Inr (map Chr (unbrace template_tail))"
    using fparse_escaped [OF escaped_template_tail, of "[]"] by simp
  have "fparse Text (''{port}'' @ template_tail) =
          Inr (Field ''port'' # map Chr (unbrace template_tail))"
    unfolding fparse_port tail by simp
  then have "fparse Text (template_mid @ ''{port}'' @ template_tail) =
          Inr (map Chr (unbrace template_mid) @ Field ''port'' # map Chr (unbrace template_tail))"
    unfolding fparse_escaped [OF escaped_template_mid] by simp
  then have "fparse Text (''{server_time}'' @ template_mid @ ''{port}'' @ template_tail) =
          Inr (Field ''server_time'' # map Chr (unbrace template_mid) @ Field ''port'' #
               map Chr (unbrace template_tail))"
    unfolding fparse_server_time by simp
  then show ?thesis
    unfolding template_def fparse_escaped [OF escaped_template_head] by simp
qed

lemma feval_chars: "feval (map Chr s @ ps) env = emit s (feval ps env)"
proof (induction s)
  case Nil
  show ?case by (cases "feval ps env") simp_all
next
  case (Cons c s)
  then show ?case by (cases "feval ps env") simp_all
qed

lemma feval_only_chars: "feval (map Chr s) env = Inr s"
  using feval_chars [of s "[]" env] by simp

lemma render_page_eq:
  "within_str_digits p \<Longrightarrow>
   render_page t p =
     Inr (unbrace template_head @ t @ unbrace template_mid @ str_int p @ unbrace template_tail)"
  unfolding render_page_def fstring_def fparse_template
  by (simp add: feval_chars feval_only_chars py_str_def)


subsection \<open>The digit limit\<close>

lemma str_nat_length_le: "0 < k \<Longrightarrow> n < 10 ^ k \<Longrightarrow> length (str_nat n) \<le> k"
proof (induction k arbitrary: n)
  case 0
  then show ?case by simp
next
  case (Suc k)
  show ?case
  proof (cases "n < 10")
    case True
    then show ?thesis by (subst str_nat.simps) simp
  next
    case False
    then have k: "0 < k" using Suc.prems(2) by (cases k) auto
    have "n div 10 < 10 ^ k" using Suc.prems(2) by (simp add: less_mult_imp_div_less mult.commute)
    then have "length (str_nat (n div 10)) \<le> k" using k by (rule Suc.IH [rotated])
    then show ?thesis using False by (subst str_nat.simps) simp
  qed
qed

lemma str_nat_length_gt: "10 ^ k \<le> n \<Longrightarrow> k < length (str_nat n)"
proof (induction k arbitrary: n)
  case 0
  show ?case by (subst str_nat.simps) simp
next
  case (Suc k)
  have "(10 :: nat) = 10 * 1" by simp
  also have "\<dots> \<le> 10 * 10 ^ k" by (rule mult_le_mono2) simp
  also have "\<dots> = 10 ^ Suc k" by simp
  also have "\<dots> \<le> n" by (rule Suc.prems)
  finally have ge: "\<not> n < 10" by simp
  have "10 ^ k \<le> n div 10" using Suc.prems by (simp add: less_eq_div_iff_mult_less_eq mult.commute)
  then have "k < length (str_nat (n div 10))" by (rule Suc.IH)
  then show ?case using ge by (subst str_nat.simps) simp
qed

lemma within_str_digits_iff: "within_str_digits i \<longleftrightarrow> \<bar>i\<bar> < 10 ^ int_max_str_digits"
proof
  assume "within_str_digits i"
  then have "\<not> 10 ^ int_max_str_digits \<le> nat \<bar>i\<bar>"
    using str_nat_length_gt [of int_max_str_digits "nat \<bar>i\<bar>"]
    by (auto simp: within_str_digits_def)
  then have "nat \<bar>i\<bar> < 10 ^ int_max_str_digits" by simp
  then have "int (nat \<bar>i\<bar>) < int (10 ^ int_max_str_digits)" by (simp only: of_nat_less_iff)
  then show "\<bar>i\<bar> < 10 ^ int_max_str_digits" by simp
next
  assume "\<bar>i\<bar> < 10 ^ int_max_str_digits"
  then have "int (nat \<bar>i\<bar>) < int (10 ^ int_max_str_digits)" by simp
  then have "nat \<bar>i\<bar> < 10 ^ int_max_str_digits" by (simp only: of_nat_less_iff)
  moreover have "0 < int_max_str_digits" by (simp add: int_max_str_digits_def)
  ultimately show "within_str_digits i"
    unfolding within_str_digits_def by (intro str_nat_length_le)
qed

lemma port_number_within: "0 \<le> p \<Longrightarrow> p \<le> 65535 \<Longrightarrow> \<bar>p\<bar> < 10 ^ int_max_str_digits" for p :: int
proof -
  assume "0 \<le> p" and "p \<le> 65535"
  then have "\<bar>p\<bar> < 10 ^ 5" by simp
  also have "(10 :: int) ^ 5 \<le> 10 ^ int_max_str_digits"
    by (rule power_increasing) (simp_all add: int_max_str_digits_def)
  finally show ?thesis .
qed

subsection \<open>Tags of the document\<close>

lemma scan_template_head:
  "fold scan_step (unbrace template_head) (None, out) =
     (None,
      [StartTag ''span'', EndTag ''span'', StartTag ''span'', StartTag ''div'', StartTag ''div'',
       EndTag ''p'', StartTag ''p'', EndTag ''h1'', StartTag ''h1'', EndTag ''span'',
       StartTag ''span'', StartTag ''main'', StartTag ''body'', EndTag ''head'', EndTag ''style'',
       StartTag ''style'', EndTag ''title'', StartTag ''title'', StartTag ''meta'', StartTag ''meta'',
       StartTag ''head'', StartTag ''html'', Declaration ''DOCTYPE html''] @ out)"
  unfolding template_head_def
  by (simp del: unbrace.simps fold.simps add: unbrace_eval fold_simps tag_of_def is_space_def)

lemma scan_template_mid:
  "fold scan_step (unbrace template_mid) (None, out) =
     (None,
      [StartTag ''span'', EndTag ''span'', StartTag ''span'', StartTag ''div'', EndTag ''div'',
       EndTag ''span''] @ out)"
  unfolding template_mid_def
  by (simp del: unbrace.simps fold.simps add: unbrace_eval fold_simps tag_of_def is_space_def)

lemma scan_template_tail:
  "fold scan_step (unbrace template_tail) (None, out) =
     (None,
      [EndTag ''html'', EndTag ''body'', EndTag ''main'', EndTag ''p'', StartTag ''p'',
       EndTag ''div'', EndTag ''div'', EndTag ''span'', StartTag ''span'', EndTag ''span'',
       StartTag ''span'', StartTag ''div'', EndTag ''div'', EndTag ''span''] @ out)"
  unfolding template_tail_def
  by (simp del: unbrace.simps fold.simps add: unbrace_eval fold_simps tag_of_def is_space_def)

lemma scan_text: "CHR ''<'' \<notin> set s \<Longrightarrow> fold scan_step s (None, out) = (None, out)"
  by (induction s) auto

lemma digit_char_set: "digit_char d \<in> set ''0123456789''"
  unfolding digit_char_def by (rule nth_mem) simp

lemma str_nat_set: "set (str_nat n) \<subseteq> set ''0123456789''"
proof (induction n rule: str_nat.induct)
  case (1 n)
  show ?case
  proof (cases "n < 10")
    case True
    then show ?thesis using digit_char_set [of n] by (subst str_nat.simps) simp
  next
    case False
    then show ?thesis using 1 digit_char_set [of n] by (subst str_nat.simps) simp
  qed
qed

lemma str_int_no_markup: "CHR ''<'' \<notin> set (str_int p)"
  using str_nat_set [of "nat p"] str_nat_set [of "nat (- p)"]
  by (auto simp: str_int_def)

lemma well_formed_page:
  assumes "CHR ''<'' \<notin> set t"
  shows "well_formed_html
     (unbrace template_head @ t @ unbrace template_mid @ str_int p @ unbrace template_tail)"
proof -
  have "html_tags (unbrace template_head @ t @ unbrace template_mid @ str_int p @ unbrace template_tail) =
    Some (rev ([EndTag ''html'', EndTag ''body'', EndTag ''main'', EndTag ''p'', StartTag ''p'',
       EndTag ''div'', EndTag ''div'', EndTag ''span'', StartTag ''span'', EndTag ''span'',
       StartTag ''span'', StartTag ''div'', EndTag ''div'', EndTag ''span''] @
      [StartTag ''span'', EndTag ''span'', StartTag ''span'', StartTag ''div'', EndTag ''div'',
       EndTag ''span''] @
      [StartTag ''span'', EndTag ''span'', StartTag ''span'', StartTag ''div'', StartTag ''div'',
       EndTag ''p'', StartTag ''p'', EndTag ''h1'', StartTag ''h1'', EndTag ''span'',
       StartTag ''span'', StartTag ''main'', StartTag ''body'', EndTag ''head'', EndTag ''style'',
       StartTag ''style'', EndTag ''title'', StartTag ''title'', StartTag ''meta'', StartTag ''meta'',
       StartTag ''head'', StartTag ''html'', Declaration ''DOCTYPE html'']))"
    unfolding html_tags_def fold_append o_apply scan_template_head
      scan_text [OF assms] scan_template_mid scan_text [OF str_int_no_markup] scan_template_tail
    by simp
  then show ?thesis
    unfolding well_formed_html_def by (simp add: void_elements_def)
qed

text \<open>
  The condition on the string is needed: a string with markup of its own, which the
  page takes over unchanged, changes the nesting.
\<close>

lemma markup_breaks_nesting:
  "\<not> well_formed_html
     (unbrace template_head @ ''<b>'' @ unbrace template_mid @ str_int p @ unbrace template_tail)"
proof -
  have b: "fold scan_step ''<b>'' (None, out) = (None, StartTag ''b'' # out)" for out
    by (simp add: tag_of_def is_space_def)
  have "html_tags (unbrace template_head @ ''<b>'' @ unbrace template_mid @ str_int p @ unbrace template_tail) =
    Some (rev ([EndTag ''html'', EndTag ''body'', EndTag ''main'', EndTag ''p'', StartTag ''p'',
       EndTag ''div'', EndTag ''div'', EndTag ''span'', StartTag ''span'', EndTag ''span'',
       StartTag ''span'', StartTag ''div'', EndTag ''div'', EndTag ''span''] @
      [StartTag ''span'', EndTag ''span'', StartTag ''span'', StartTag ''div'', EndTag ''div'',
       EndTag ''span''] @ StartTag ''b'' #
      [StartTag ''span'', EndTag ''span'', StartTag ''span'', StartTag ''div'', StartTag ''div'',
       EndTag ''p'', StartTag ''p'', EndTag ''h1'', StartTag ''h1'', EndTag ''span'',
       StartTag ''span'', StartTag ''main'', StartTag ''body'', EndTag ''head'', EndTag ''style'',
       StartTag ''style'', EndTag ''title'', StartTag ''title'', StartTag ''meta'', StartTag ''meta'',
       StartTag ''head'', StartTag ''html'', Declaration ''DOCTYPE html'']))"
    unfolding html_tags_def fold_append o_apply scan_template_head b
      scan_template_mid scan_text [OF str_int_no_markup] scan_template_tail
    by simp
  then show ?thesis
    unfolding well_formed_html_def by (simp add: void_elements_def)
qed

lemma matches_chars: "matches ps cs \<Longrightarrow> c \<in> set cs \<Longrightarrow> is_digit c \<or> c \<in> set ps"
  by (induction ps cs rule: matches.induct) (auto split: if_splits)

lemma utc_stamp_no_markup: "utc_stamp T \<Longrightarrow> CHR ''<'' \<notin> set T"
proof
  assume "utc_stamp T" and "CHR ''<'' \<in> set T"
  then have "is_digit CHR ''<'' \<or> CHR ''<'' \<in> set ''dddd-dd-dd dd:dd:dd UTC''"
    unfolding utc_stamp_def by (rule matches_chars)
  then show False by (simp add: is_digit_def)
qed

subsection \<open>What the page contains\<close>

text \<open>
  C1: for every timestamp string \<open>T\<close> and port \<open>P\<close>, \<open>_render_page\<close> returns a document
  that contains \<open>T\<close> and \<open>str(P)\<close> as substrings; the document is well-formed HTML with
  the single root element \<open>html\<close>.  Both substrings are there for every string.  The
  nesting is that of the template whenever \<open>T\<close> holds no \<open><\<close>, and so for every string
  of the shape \<open>YYYY-MM-DD HH:MM:SS UTC\<close>.  The port is any integer that \<open>str\<close> converts,
  one of at most 4300 digits, and every port number from 0 to 65535 is one.
\<close>

theorem render_page_contains_well_formed:
  "(\<bar>P\<bar> < 10 ^ int_max_str_digits \<longrightarrow>
      (\<exists>doc. render_page T P = Inr doc \<and> sublist T doc \<and> sublist (str_int P) doc \<and>
         (CHR ''<'' \<notin> set T \<longrightarrow> well_formed_html doc) \<and>
         (utc_stamp T \<longrightarrow> well_formed_html doc))) \<and>
   (0 \<le> P \<and> P \<le> 65535 \<longrightarrow> \<bar>P\<bar> < 10 ^ int_max_str_digits)"
proof (intro conjI impI)
  assume "\<bar>P\<bar> < 10 ^ int_max_str_digits"
  then have w: "within_str_digits P" by (simp only: within_str_digits_iff)
  let ?doc = "unbrace template_head @ T @ unbrace template_mid @ str_int P @ unbrace template_tail"
  have "sublist (str_int P) ((unbrace template_head @ T @ unbrace template_mid) @ str_int P @ unbrace template_tail)"
    by (rule sublist_appendI)
  then have "sublist (str_int P) ?doc" by simp
  moreover have "sublist T ?doc" by (rule sublist_appendI)
  moreover have "CHR ''<'' \<notin> set T \<longrightarrow> well_formed_html ?doc"
    using well_formed_page by blast
  moreover have "utc_stamp T \<longrightarrow> well_formed_html ?doc"
    using well_formed_page utc_stamp_no_markup by blast
  ultimately show "\<exists>doc. render_page T P = Inr doc \<and> sublist T doc \<and> sublist (str_int P) doc \<and>
         (CHR ''<'' \<notin> set T \<longrightarrow> well_formed_html doc) \<and>
         (utc_stamp T \<longrightarrow> well_formed_html doc)"
    using render_page_eq [OF w, of T] by blast
next
  assume "0 \<le> P \<and> P \<le> 65535"
  then show "\<bar>P\<bar> < 10 ^ int_max_str_digits" by (simp only: port_number_within)
qed

theorem render_page_contains_well_formed_witness:
  "(0 :: int) \<le> 8080 \<and> (8080 :: int) \<le> 65535 \<and> \<bar>8080 :: int\<bar> < 10 ^ int_max_str_digits \<and>
   utc_stamp ''2026-11-04 07:24:00 UTC'' \<and> CHR ''<'' \<notin> set ''2026-11-04 07:24:00 UTC'' \<and>
   (\<exists>doc. render_page ''2026-11-04 07:24:00 UTC'' 8080 = Inr doc \<and>
      sublist ''2026-11-04 07:24:00 UTC'' doc \<and> sublist (str_int 8080) doc \<and>
      well_formed_html doc)"
proof -
  have p: "(0 :: int) \<le> 8080 \<and> (8080 :: int) \<le> 65535" by simp
  have u: "utc_stamp ''2026-11-04 07:24:00 UTC''" by (simp add: utc_stamp_def is_digit_def)
  have h: "CHR ''<'' \<notin> set ''2026-11-04 07:24:00 UTC''" by simp
  show ?thesis
    using p u h render_page_contains_well_formed [of 8080 "''2026-11-04 07:24:00 UTC''"] by blast
qed




text \<open>
  C10: \<open>_render_page\<close> embeds \<open>server_time\<close> as it is, with no escaping: for every
  string \<open>s\<close>, markup included, the document is the text before the field, then \<open>s\<close>
  itself, then the rest, so \<open>s\<close> occurs in it unchanged.  The port is any integer that
  \<open>str\<close> converts.
\<close>

theorem render_page_verbatim:
  assumes "\<bar>P\<bar> < 10 ^ int_max_str_digits"
  shows "render_page s P =
     Inr (unbrace template_head @ s @ unbrace template_mid @ str_int P @ unbrace template_tail) \<and>
   sublist s (unbrace template_head @ s @ unbrace template_mid @ str_int P @ unbrace template_tail)"
proof -
  have "within_str_digits P" using assms by (simp only: within_str_digits_iff)
  then show ?thesis using render_page_eq [of P s] by simp
qed

theorem render_page_verbatim_witness:
  "\<bar>8080 :: int\<bar> < 10 ^ int_max_str_digits \<and>
   (\<exists>before after. render_page ''<script>alert(1)</script> & more'' 8080 =
     Inr (before @ ''<script>alert(1)</script> & more'' @ after))"
proof -
  have h: "\<bar>8080 :: int\<bar> < 10 ^ int_max_str_digits"
    using port_number_within [of 8080] by simp
  show ?thesis
    using h render_page_verbatim [OF h, of "''<script>alert(1)</script> & more''"] by blast
qed

section \<open>Configuration, routes and logging\<close>

subsection \<open>Reading the port\<close>

lemma py_int_8080: "py_int to_ascii ''8080'' = Inr 8080"
  by (simp add: py_int_def is_ascii_def strip_def is_space_def unsigned_def int_literal_def
      is_digit_def digit_val_def int_max_str_digits_def)

lemma read_port_unset: "map_of environ ''PORT'' = None \<Longrightarrow> read_port to_ascii environ = Inr 8080"
  by (simp add: read_port_def getenv_def py_int_8080)

lemma read_port_set:
  "map_of environ ''PORT'' = Some v \<Longrightarrow> read_port to_ascii environ = py_int to_ascii v"
  by (simp add: read_port_def getenv_def)

lemma in_dropWhile: "x \<in> set xs \<Longrightarrow> \<not> P x \<Longrightarrow> x \<in> set (dropWhile P xs)"
  by (induction xs) auto

lemma in_strip: "c \<in> set s \<Longrightarrow> \<not> is_space c \<Longrightarrow> c \<in> set (strip s)"
  unfolding strip_def by (simp add: in_dropWhile)

lemma int_digits_reject:
  "c \<in> set cs \<Longrightarrow> \<not> is_digit c \<Longrightarrow> c \<noteq> CHR ''_'' \<Longrightarrow> int_digits acc cs = None"
  by (induction acc cs rule: int_digits.induct) auto

lemma int_literal_reject:
  "c \<in> set s \<Longrightarrow> \<not> is_digit c \<Longrightarrow> c \<noteq> CHR ''_'' \<Longrightarrow> int_literal s = None"
  unfolding int_literal_def by (cases s) (auto simp: int_digits_reject)

lemma in_unsigned:
  "c \<in> set t \<Longrightarrow> c \<noteq> CHR ''+'' \<Longrightarrow> c \<noteq> CHR ''-'' \<Longrightarrow> c \<in> set (unsigned t)"
  unfolding unsigned_def by (cases t) auto

lemma py_int_reject:
  assumes "is_ascii s" and "c \<in> set s" and "\<not> is_digit c" and "\<not> is_space c"
    and "c \<noteq> CHR ''_''" and "c \<noteq> CHR ''+''" and "c \<noteq> CHR ''-''"
  shows "py_int to_ascii s = Inl ValueError"
proof -
  have "c \<in> set (strip s)" using assms(2,4) by (rule in_strip)
  then have "c \<in> set (unsigned (strip s))" using assms(6,7) by (rule in_unsigned)
  then have "int_literal (unsigned (strip s)) = None" using assms(3,5) by (rule int_literal_reject)
  then show ?thesis
    unfolding py_int_def Let_def using assms(1) by simp
qed

lemma is_digit_not_space: "is_digit c \<Longrightarrow> \<not> is_space c"
  unfolding is_digit_def is_space_def by auto

lemma is_digit_not_sign: "is_digit c \<Longrightarrow> c \<noteq> CHR ''-'' \<and> c \<noteq> CHR ''+''"
  unfolding is_digit_def by auto

lemma is_digit_ascii: "is_digit c \<Longrightarrow> (of_char c :: nat) < 128"
  unfolding is_digit_def by auto

lemma digits_ascii: "\<forall>c\<in>set s. is_digit c \<Longrightarrow> is_ascii s"
  unfolding is_ascii_def by (simp add: list_all_iff is_digit_ascii)

lemma digit_val_pos: "is_digit c \<Longrightarrow> c \<noteq> CHR ''0'' \<Longrightarrow> 0 < digit_val c"
  unfolding is_digit_def digit_val_def by auto

lemma digit_val_le: "is_digit c \<Longrightarrow> digit_val c \<le> 9"
  unfolding is_digit_def digit_val_def by auto

lemma strip_digits: "\<forall>c\<in>set s. is_digit c \<Longrightarrow> strip s = s"
proof (cases s)
  case Nil
  then show ?thesis by (simp add: strip_def)
next
  case (Cons a as)
  assume d: "\<forall>c\<in>set s. is_digit c"
  have "\<not> is_space (hd s)" using d Cons by (simp add: is_digit_not_space)
  then have 1: "dropWhile is_space s = s" using Cons by simp
  have "hd (rev s) \<in> set (rev s)" using Cons by (intro hd_in_set) simp
  then have "\<not> is_space (hd (rev s))" using d by (simp add: is_digit_not_space)
  then have 2: "dropWhile is_space (rev s) = rev s" using Cons by (cases "rev s") auto
  show ?thesis unfolding strip_def 1 2 by simp
qed

lemma int_digits_all:
  "\<forall>c\<in>set cs. is_digit c \<Longrightarrow>
     \<exists>n. int_digits acc cs = Some n \<and> acc \<le> n \<and> ((\<exists>c\<in>set cs. c \<noteq> CHR ''0'') \<longrightarrow> 0 < n)"
proof (induction acc cs rule: int_digits.induct)
  case (1 acc)
  then show ?case by simp
next
  case (2 acc c)
  then show ?case using digit_val_pos [of c] by auto
next
  case (3 acc c d cs)
  then have "\<exists>n. int_digits (10 * acc + digit_val c) (d # cs) = Some n \<and> 10 * acc + digit_val c \<le> n \<and>
      ((\<exists>x\<in>set (d # cs). x \<noteq> CHR ''0'') \<longrightarrow> 0 < n)"
    by simp
  then obtain n where n: "int_digits (10 * acc + digit_val c) (d # cs) = Some n"
      "10 * acc + digit_val c \<le> n" "(\<exists>x\<in>set (d # cs). x \<noteq> CHR ''0'') \<longrightarrow> 0 < n"
    by blast
  have "c \<noteq> CHR ''0'' \<Longrightarrow> 0 < n" using digit_val_pos [of c] 3(3) n(2) by auto
  then show ?case using 3(3) n by auto
qed

lemma py_int_digits:
  assumes "s \<noteq> []" and "\<forall>c\<in>set s. is_digit c" and "\<exists>c\<in>set s. c \<noteq> CHR ''0''"
    and "py_int to_ascii s = Inr p"
  shows "0 < p"
proof -
  obtain a as where s: "s = a # as" using assms(1) by (cases s) auto
  have a: "is_digit a" and as: "\<forall>c\<in>set as. is_digit c" using assms(2) s by auto
  obtain n where n: "int_digits (digit_val a) as = Some n" "digit_val a \<le> n"
      "(\<exists>c\<in>set as. c \<noteq> CHR ''0'') \<longrightarrow> 0 < n"
    using int_digits_all [OF as, of "digit_val a"] by blast
  have pos: "0 < n"
  proof (cases "a = CHR ''0''")
    case True
    then show ?thesis using assms(3) s n(3) by auto
  next
    case False
    then show ?thesis using digit_val_pos [OF a] n(2) by simp
  qed
  have lit: "int_literal s = Some n" unfolding int_literal_def s using a n(1) by simp
  have sign: "hd s \<noteq> CHR ''-''" "unsigned s = s"
    using is_digit_not_sign [OF a] s by (auto simp: unsigned_def)
  have "py_int to_ascii s = Inr (int n) \<or> py_int to_ascii s = Inl ValueError"
    unfolding py_int_def Let_def using digits_ascii [OF assms(2)] strip_digits [OF assms(2)] lit sign
    by simp
  then show ?thesis using assms(4) pos by auto
qed

text \<open>A value that \<open>int\<close> has accepted is one that \<open>str\<close> converts.\<close>

lemma int_digits_bound:
  "int_digits acc cs = Some n \<Longrightarrow> n < (acc + 1) * 10 ^ length (filter is_digit cs)"
proof (induction acc cs arbitrary: n rule: int_digits.induct)
  case (1 acc)
  then show ?case by simp
next
  case (2 acc c)
  then show ?case using digit_val_le [of c] by (auto split: if_splits)
next
  case (3 acc c d cs)
  show ?case
  proof (cases "is_digit c")
    case True
    define k where "k = length (filter is_digit (d # cs))"
    have r: "int_digits (10 * acc + digit_val c) (d # cs) = Some n" using 3(3) True by simp
    have "n < (10 * acc + digit_val c + 1) * 10 ^ k"
      unfolding k_def using True r by (rule 3(1))
    also have "\<dots> \<le> (10 * (acc + 1)) * 10 ^ k"
      using digit_val_le [OF True] by (intro mult_le_mono1) simp
    finally have "n < (acc + 1) * 10 ^ Suc k" by (simp add: algebra_simps)
    moreover have "length (filter is_digit (c # d # cs)) = Suc k" using True by (simp add: k_def)
    ultimately show ?thesis by (simp only:)
  next
    case False
    then have u: "c = CHR ''_''" "is_digit d" and r: "int_digits (10 * acc + digit_val d) cs = Some n"
      using 3(3) by (auto split: if_splits)
    define k where "k = length (filter is_digit cs)"
    have "c = CHR ''_'' \<and> is_digit d" using u by simp
    then have "n < (10 * acc + digit_val d + 1) * 10 ^ k"
      unfolding k_def using False r by (intro 3(2))
    also have "\<dots> \<le> (10 * (acc + 1)) * 10 ^ k"
      using digit_val_le [OF u(2)] by (intro mult_le_mono1) simp
    finally have "n < (acc + 1) * 10 ^ Suc k" by (simp add: algebra_simps)
    moreover have "length (filter is_digit (c # d # cs)) = Suc k" using False u by (simp add: k_def)
    ultimately show ?thesis by (simp only:)
  qed
qed

lemma int_literal_bound: "int_literal s = Some n \<Longrightarrow> n < 10 ^ length (filter is_digit s)"
proof (cases s)
  case Nil
  assume "int_literal s = Some n"
  then show ?thesis using Nil by (simp add: int_literal_def)
next
  case (Cons c cs)
  assume "int_literal s = Some n"
  then have c: "is_digit c" and r: "int_digits (digit_val c) cs = Some n"
    using Cons by (auto simp: int_literal_def split: if_splits)
  have "n < (digit_val c + 1) * 10 ^ length (filter is_digit cs)"
    using r by (rule int_digits_bound)
  also have "\<dots> \<le> 10 * 10 ^ length (filter is_digit cs)"
    using digit_val_le [OF c] by (intro mult_le_mono1) simp
  finally show ?thesis using Cons c by simp
qed

lemma py_int_within: "py_int to_ascii s = Inr p \<Longrightarrow> within_str_digits p"
proof -
  assume a: "py_int to_ascii s = Inr p"
  define ds where "ds = unsigned (strip (if is_ascii s then s else to_ascii s))"
  obtain n where n: "int_literal ds = Some n"
    and len: "length (filter is_digit ds) \<le> int_max_str_digits" and p: "\<bar>p\<bar> = int n"
    using a unfolding py_int_def Let_def ds_def [symmetric]
    by (auto split: option.splits if_splits)
  have "n < 10 ^ length (filter is_digit ds)" using n by (rule int_literal_bound)
  also have "\<dots> \<le> 10 ^ int_max_str_digits" using len by (intro power_increasing) simp_all
  finally have "int n < int (10 ^ int_max_str_digits)" by (simp only: of_nat_less_iff)
  then have "\<bar>p\<bar> < 10 ^ int_max_str_digits" using p by simp
  then show ?thesis by (simp only: within_str_digits_iff)
qed

lemma read_port_within: "read_port to_ascii environ = Inr p \<Longrightarrow> within_str_digits p"
  unfolding read_port_def by (rule py_int_within)

text \<open>Which ASCII strings \<open>int\<close> rejects.\<close>

lemma is_digit_not_underscore: "is_digit c \<Longrightarrow> c \<noteq> CHR ''_''"
  unfolding is_digit_def by auto

lemma int_digits_ok_iff:
  "int_digits acc cs \<noteq> None \<longleftrightarrow>
     list_all (\<lambda>c. is_digit c \<or> c = CHR ''_'') cs \<and> (cs \<noteq> [] \<longrightarrow> is_digit (last cs)) \<and>
     \<not> sublist ''__'' cs"
proof (induction acc cs rule: int_digits.induct)
  case (1 acc)
  show ?case by simp
next
  case (2 acc c)
  show ?case by (auto simp: sublist_Cons_right)
next
  case (3 acc c d cs)
  show ?case
  proof (cases "is_digit c")
    case True
    then show ?thesis
      using 3(1) [OF True] is_digit_not_underscore [OF True]
      by (simp add: sublist_Cons_right [of _ c])
  next
    case False
    show ?thesis
    proof (cases "c = CHR ''_'' \<and> is_digit d")
      case True
      then show ?thesis
        using False 3(2) [OF False True] is_digit_not_underscore [of d]
        by (auto simp: sublist_Cons_right)
    next
      case F: False
      then have "int_digits acc (c # d # cs) = None" using False by auto
      moreover have "\<not> (list_all (\<lambda>c. is_digit c \<or> c = CHR ''_'') (c # d # cs) \<and>
          \<not> sublist ''__'' (c # d # cs))"
        using False F by (auto simp: sublist_Cons_right)
      ultimately show ?thesis by blast
    qed
  qed
qed

lemma int_literal_ok_iff:
  "int_literal b \<noteq> None \<longleftrightarrow>
     b \<noteq> [] \<and> is_digit (hd b) \<and> is_digit (last b) \<and>
     list_all (\<lambda>c. is_digit c \<or> c = CHR ''_'') b \<and> \<not> sublist ''__'' b"
proof (cases b)
  case Nil
  then show ?thesis by (simp add: int_literal_def)
next
  case (Cons c cs)
  show ?thesis
  proof (cases "is_digit c")
    case True
    then show ?thesis
      unfolding Cons int_literal_def
      using int_digits_ok_iff [of "digit_val c" cs] is_digit_not_underscore [OF True]
      by (auto simp: sublist_Cons_right)
  next
    case False
    then show ?thesis unfolding Cons int_literal_def by simp
  qed
qed

lemma py_int_error_iff:
  assumes "is_ascii v"
  shows "py_int to_ascii v = Inl ValueError \<longleftrightarrow> \<not> int_syntax v"
proof -
  define b where "b = unsigned (strip v)"
  have "py_int to_ascii v = Inl ValueError \<longleftrightarrow>
      int_literal b = None \<or> int_max_str_digits < length (filter is_digit b)"
    unfolding py_int_def Let_def b_def using assms by (auto split: option.splits)
  also have "\<dots> \<longleftrightarrow> \<not> (int_literal b \<noteq> None \<and> length (filter is_digit b) \<le> int_max_str_digits)"
    by auto
  also have "\<dots> \<longleftrightarrow> \<not> int_syntax v"
    unfolding int_syntax_def Let_def b_def [symmetric] int_literal_ok_iff by auto
  finally show ?thesis .
qed

subsection \<open>The time stamp\<close>

lemma is_digit_digit_char: "is_digit (digit_char d)"
  unfolding is_digit_def by (rule digit_char_set)

lemma digit_char_0: "digit_char 0 = CHR ''0''"
  by (simp add: digit_char_def)

lemma str_nat_1: "n < 10 \<Longrightarrow> str_nat n = [digit_char n]"
  by (subst str_nat.simps) simp

lemma str_nat_2: "10 \<le> n \<Longrightarrow> n < 100 \<Longrightarrow> str_nat n = [digit_char (n div 10), digit_char n]"
  by (subst str_nat.simps) (simp add: str_nat_1)

lemma str_nat_3:
  "100 \<le> n \<Longrightarrow> n < 1000 \<Longrightarrow>
     str_nat n = [digit_char (n div 100), digit_char (n div 10), digit_char n]"
  by (subst str_nat.simps) (simp add: str_nat_2 div_mult2_eq [symmetric])

lemma str_nat_4:
  "1000 \<le> n \<Longrightarrow> n < 10000 \<Longrightarrow>
     str_nat n = [digit_char (n div 1000), digit_char (n div 100), digit_char (n div 10), digit_char n]"
  by (subst str_nat.simps) (simp add: str_nat_3 div_mult2_eq [symmetric])

lemma zfill_2: "n < 100 \<Longrightarrow> zfill 2 (str_nat n) = [digit_char (n div 10), digit_char n]"
  by (cases "n < 10") (simp_all add: zfill_def str_nat_1 str_nat_2 digit_char_0)

lemma zfill_4:
  "1000 \<le> n \<Longrightarrow> n < 10000 \<Longrightarrow>
     zfill 4 (str_nat n) =
       [digit_char (n div 1000), digit_char (n div 100), digit_char (n div 10), digit_char n]"
  by (simp add: zfill_def str_nat_4)

lemma strftime_stamp:
  "strftime dt ''%Y-%m-%d %H:%M:%S UTC'' =
     zfill 4 (str_nat (year dt)) @ ''-'' @ zfill 2 (str_nat (month dt)) @ ''-'' @
     zfill 2 (str_nat (day dt)) @ '' '' @ zfill 2 (str_nat (hour dt)) @ '':'' @
     zfill 2 (str_nat (minute dt)) @ '':'' @ zfill 2 (str_nat (second dt)) @ '' UTC''"
  by (simp add: directive_def)

lemma utc_stamp_strftime:
  assumes "valid_datetime dt" and "1000 \<le> year dt"
  shows "utc_stamp (strftime dt ''%Y-%m-%d %H:%M:%S UTC'')"
proof -
  have y: "year dt < 10000" and m: "month dt < 100" and d: "day dt < 100"
    and h: "hour dt < 100" and mi: "minute dt < 100" and s: "second dt < 100"
    using assms(1) by (auto simp: valid_datetime_def)
  show ?thesis
    unfolding utc_stamp_def strftime_stamp zfill_4 [OF assms(2) y]
      zfill_2 [OF m] zfill_2 [OF d] zfill_2 [OF h] zfill_2 [OF mi] zfill_2 [OF s]
    by (simp add: is_digit_digit_char)
qed

subsection \<open>Requests\<close>

lemma log_requests_response:
  "call_next rq st = (Inr rs, st1) \<Longrightarrow>
     log_requests rq call_next st = (Inr rs, logger_info (request_line rq rs) st1)"
  by (simp add: log_requests_def)

lemma log_requests_error:
  "call_next rq st = (Inl e, st1) \<Longrightarrow> log_requests rq call_next st = (Inl e, st1)"
  by (simp add: log_requests_def)

lemma request_line_contains:
  "sublist (request_method rq) (request_line rq rs)"
  "sublist (path rq) (request_line rq rs)"
  "sublist (str_int (status_code rs)) (request_line rq rs)"
proof -
  show "sublist (request_method rq) (request_line rq rs)"
    unfolding request_line_def by (rule sublist_append_rightI)
  have "sublist (path rq) ((request_method rq @ '' '') @ path rq @ ('' '' @ arrow @ '' '' @ str_int (status_code rs)))"
    by (rule sublist_appendI)
  then show "sublist (path rq) (request_line rq rs)"
    unfolding request_line_def by simp
  have "sublist (str_int (status_code rs))
      ((request_method rq @ '' '' @ path rq @ '' '' @ arrow @ '' '') @ str_int (status_code rs))"
    by (rule sublist_append_leftI)
  then show "sublist (str_int (status_code rs)) (request_line rq rs)"
    unfolding request_line_def by simp
qed

lemma router_state: "snd (router other now rq st) = st"
  unfolding router_def by (cases "root now st") simp_all

lemma router_response:
  "within_str_digits (PORT st) \<Longrightarrow> \<exists>rs. router other now rq st = (Inr rs, st)"
  unfolding router_def root_def Let_def by (simp add: render_page_eq)

lemma app_one_line:
  assumes "within_str_digits (PORT st)"
  shows "\<exists>rs. app other now rq st = (Inr rs, logger_info (request_line rq rs) st)"
proof -
  obtain rs where "router other now rq st = (Inr rs, st)"
    using router_response [OF assms] by blast
  then show ?thesis
    unfolding app_def by (auto dest: log_requests_response)
qed

lemma app_keeps_port: "PORT (snd (app other now rq st)) = PORT st"
proof (cases "router other now rq st")
  case (Pair r st1)
  then have "st1 = st" using router_state [of other now rq st] by simp
  then show ?thesis
    using Pair unfolding app_def
    by (cases r) (simp_all add: log_requests_def logger_info_def)
qed

lemma app_emitted:
  "within_str_digits (PORT st) \<Longrightarrow>
     \<exists>line. emitted (snd (app other now rq st)) = emitted st @ [line]"
  using app_one_line [of st other now rq] by (auto simp: logger_info_def)

lemma serve_keeps_port: "PORT (serve other rqs st) = PORT st"
  by (induction other rqs st rule: serve.induct) (simp_all add: app_keeps_port)

lemma serve_emitted:
  "within_str_digits (PORT st) \<Longrightarrow>
     \<exists>ls. emitted (serve other rqs st) = emitted st @ ls \<and> length ls = length rqs"
proof (induction other rqs st rule: serve.induct)
  case (1 other st)
  show ?case by simp
next
  case (2 other now rq rqs st)
  obtain line where l: "emitted (snd (app other now rq st)) = emitted st @ [line]"
    using app_emitted [OF 2(2)] by blast
  have "within_str_digits (PORT (snd (app other now rq st)))"
    using 2(2) by (simp add: app_keeps_port)
  then obtain ls where "emitted (serve other rqs (snd (app other now rq st))) =
      emitted (snd (app other now rq st)) @ ls" "length ls = length rqs"
    using 2(1) by blast
  then have "emitted (serve other ((now, rq) # rqs) st) = emitted st @ (line # ls) \<and>
      length (line # ls) = length ((now, rq) # rqs)"
    using l by simp
  then show ?case by blast
qed

lemma app_healthz:
  "fst (app other now \<lparr>request_method = ''GET'', path = ''/healthz''\<rparr> st) =
     Inr \<lparr>status_code = 200, media_type = ''application/json'', body = JSON [(''status'', ''ok'')]\<rparr>"
  by (simp add: app_def log_requests_def router_def JSONResponse_def healthz_def)

lemma app_root:
  "within_str_digits (PORT st) \<Longrightarrow>
   fst (app other now \<lparr>request_method = ''GET'', path = ''/''\<rparr> st) =
     Inr \<lparr>status_code = 200, media_type = ''text/html'',
          body = HTML (unbrace template_head @ strftime now ''%Y-%m-%d %H:%M:%S UTC'' @
            unbrace template_mid @ str_int (PORT st) @ unbrace template_tail)\<rparr>"
  by (simp add: app_def log_requests_def router_def root_def HTMLResponse_def render_page_eq
      del: strftime.simps)

lemma startup_ok:
  "read_port to_ascii environ = Inr p \<Longrightarrow>
     startup to_ascii environ =
       Inr \<lparr>PORT = p,
            emitted = [\<lparr>levelname = ''INFO'', logger_name = ''app'',
                        message = ''Listening on http://0.0.0.0:'' @ str_int p @ ''/''\<rparr>]\<rparr>"
  by (simp add: startup_def on_startup_def logger_info_def)

lemma startup_port:
  "startup to_ascii environ = Inr st \<Longrightarrow> read_port to_ascii environ = Inr (PORT st)"
  by (cases "read_port to_ascii environ") (auto simp: startup_def on_startup_def logger_info_def)

lemma started_within:
  "startup to_ascii environ = Inr st \<Longrightarrow> within_str_digits (PORT (serve other rqs st))"
  unfolding serve_keeps_port by (rule read_port_within [OF startup_port])

subsection \<open>Configuration claims\<close>

text \<open>
  C2, as amended: reading the port gives 8080 when \<open>PORT\<close> is unset.  When \<open>PORT\<close> is
  set, the port is \<open>int\<close> of its value and nothing replaces a value that \<open>int\<close> cannot
  parse: whenever \<open>int\<close> raises \<open>ValueError\<close>, the error is raised while the module is
  imported and startup fails.  For an ASCII value that is exactly when the value is not
  the text of an integer (\<open>int_syntax\<close>), and so for every ASCII value with a character
  other than a digit, white space, a sign or an underscore.
\<close>

theorem read_port_unset_or_invalid:
  "(map_of environ ''PORT'' = None \<longrightarrow> read_port to_ascii environ = Inr 8080) \<and>
   (map_of environ ''PORT'' = Some v \<longrightarrow>
      read_port to_ascii environ = py_int to_ascii v \<and>
      (py_int to_ascii v = Inl ValueError \<longrightarrow>
         read_port to_ascii environ = Inl ValueError \<and> startup to_ascii environ = Inl ValueError) \<and>
      (is_ascii v \<longrightarrow> (py_int to_ascii v = Inl ValueError \<longleftrightarrow> \<not> int_syntax v)) \<and>
      (is_ascii v \<and> c \<in> set v \<and> \<not> is_digit c \<and> \<not> is_space c \<and>
         c \<noteq> CHR ''_'' \<and> c \<noteq> CHR ''+'' \<and> c \<noteq> CHR ''-'' \<longrightarrow>
         py_int to_ascii v = Inl ValueError))"
proof (intro conjI impI)
  assume "map_of environ ''PORT'' = None"
  then show "read_port to_ascii environ = Inr 8080" by (rule read_port_unset)
next
  assume "map_of environ ''PORT'' = Some v"
  then show "read_port to_ascii environ = py_int to_ascii v" by (rule read_port_set)
next
  assume "map_of environ ''PORT'' = Some v" and "py_int to_ascii v = Inl ValueError"
  then show r: "read_port to_ascii environ = Inl ValueError" by (simp add: read_port_set)
  then show "startup to_ascii environ = Inl ValueError" by (simp add: startup_def)
next
  assume "is_ascii v"
  then show "py_int to_ascii v = Inl ValueError \<longleftrightarrow> \<not> int_syntax v" by (rule py_int_error_iff)
next
  assume "is_ascii v \<and> c \<in> set v \<and> \<not> is_digit c \<and> \<not> is_space c \<and>
      c \<noteq> CHR ''_'' \<and> c \<noteq> CHR ''+'' \<and> c \<noteq> CHR ''-''"
  then show "py_int to_ascii v = Inl ValueError" by (intro py_int_reject [of v c]) simp_all
qed

theorem read_port_unset_or_invalid_witness:
  "map_of ([] :: (string \<times> string) list) ''PORT'' = None \<and> read_port id [] = Inr 8080 \<and>
   map_of [(''PORT'', ''80a'')] ''PORT'' = Some ''80a'' \<and> is_ascii ''80a'' \<and>
   CHR ''a'' \<in> set ''80a'' \<and> \<not> is_digit CHR ''a'' \<and> \<not> is_space CHR ''a'' \<and>
   py_int id ''80a'' = Inl ValueError \<and> \<not> int_syntax ''80a'' \<and>
   read_port id [(''PORT'', ''80a'')] = Inl ValueError \<and>
   startup id [(''PORT'', ''80a'')] = Inl ValueError"
proof -
  have a: "is_ascii ''80a''" by (simp add: is_ascii_def)
  have d: "\<not> is_digit CHR ''a''" "\<not> is_space CHR ''a''" by (simp_all add: is_digit_def is_space_def)
  show ?thesis
    using a d read_port_unset_or_invalid [of "[]" id]
      read_port_unset_or_invalid [of "[(''PORT'', ''80a'')]" id "''80a''" "CHR ''a''"]
    by auto
qed

text \<open>
  As the specification states it, with the default also for an unparsable value, the
  property fails: with \<open>PORT=abc\<close> the conversion raises and the process does not start,
  and so it is with an empty value, a lone sign and \<open>8080_\<close>.  These values are ASCII, so
  the table \<open>to_ascii\<close> plays no part.
\<close>

theorem read_port_invalid_counterexample:
  "read_port id [(''PORT'', ''abc'')] = Inl ValueError \<and>
   read_port id [(''PORT'', ''abc'')] \<noteq> Inr 8080 \<and>
   startup id [(''PORT'', ''abc'')] = Inl ValueError \<and>
   read_port id [(''PORT'', '''')] = Inl ValueError \<and>
   read_port id [(''PORT'', ''+'')] = Inl ValueError \<and>
   read_port id [(''PORT'', ''8080_'')] = Inl ValueError"
proof -
  have "py_int id ''abc'' = Inl ValueError"
    by (rule py_int_reject [of _ "CHR ''a''"]) (simp_all add: is_ascii_def is_digit_def is_space_def)
  moreover have "py_int id '''' = Inl ValueError"
    by (simp add: py_int_def is_ascii_def strip_def unsigned_def int_literal_def)
  moreover have "py_int id ''+'' = Inl ValueError"
    by (simp add: py_int_def is_ascii_def strip_def is_space_def unsigned_def int_literal_def)
  moreover have "py_int id ''8080_'' = Inl ValueError"
    by (simp add: py_int_def is_ascii_def strip_def is_space_def unsigned_def int_literal_def
        is_digit_def digit_val_def)
  ultimately show ?thesis by (simp add: read_port_def getenv_def startup_def)
qed

text \<open>
  C6, as amended: the configured port is the integer read at startup and stays the same
  through every request served.  It is 8080 when \<open>PORT\<close> is unset, and positive when
  \<open>PORT\<close> is written with digits only, one of them not zero.  The sign of the value is
  not checked.
\<close>

theorem port_fixed_positive_for_numerals:
  assumes "startup to_ascii environ = Inr st"
  shows "PORT (serve other rqs st) = PORT st \<and> read_port to_ascii environ = Inr (PORT st) \<and>
    (map_of environ ''PORT'' = None \<longrightarrow> PORT st = 8080) \<and>
    (map_of environ ''PORT'' = Some v \<and> v \<noteq> [] \<and> (\<forall>c\<in>set v. is_digit c) \<and>
       (\<exists>c\<in>set v. c \<noteq> CHR ''0'') \<longrightarrow> 0 < PORT st)"
proof -
  have p: "read_port to_ascii environ = Inr (PORT st)" using assms by (rule startup_port)
  have "PORT st = 8080" if "map_of environ ''PORT'' = None"
    using read_port_unset [OF that, of to_ascii] p by simp
  moreover have "0 < PORT st"
    if h: "map_of environ ''PORT'' = Some v \<and> v \<noteq> [] \<and> (\<forall>c\<in>set v. is_digit c) \<and>
       (\<exists>c\<in>set v. c \<noteq> CHR ''0'')"
  proof -
    have "py_int to_ascii v = Inr (PORT st)" using read_port_set [of environ v to_ascii] h p by simp
    then show ?thesis using h by (intro py_int_digits [of v to_ascii]) simp_all
  qed
  ultimately show ?thesis using p by (simp add: serve_keeps_port)
qed

theorem port_fixed_positive_for_numerals_witness:
  "startup id [(''PORT'', ''9090'')] =
     Inr \<lparr>PORT = 9090,
          emitted = [\<lparr>levelname = ''INFO'', logger_name = ''app'',
                      message = ''Listening on http://0.0.0.0:9090/''\<rparr>]\<rparr> \<and>
   map_of [(''PORT'', ''9090'')] ''PORT'' = Some ''9090'' \<and> ''9090'' \<noteq> [] \<and>
   list_all is_digit ''9090'' \<and> CHR ''9'' \<in> set ''9090'' \<and> CHR ''9'' \<noteq> CHR ''0'' \<and>
   PORT (serve (\<lambda>rq. JSONResponse [])
     [(\<lparr>year = 2026, month = 11, day = 4, hour = 7, minute = 24, second = 0\<rparr>,
       \<lparr>request_method = ''GET'', path = ''/healthz''\<rparr>)]
     \<lparr>PORT = 9090,
      emitted = [\<lparr>levelname = ''INFO'', logger_name = ''app'',
                  message = ''Listening on http://0.0.0.0:9090/''\<rparr>]\<rparr>) = 9090 \<and>
   (0 :: int) < 9090"
proof -
  let ?st = "\<lparr>PORT = 9090,
    emitted = [\<lparr>levelname = ''INFO'', logger_name = ''app'',
                message = ''Listening on http://0.0.0.0:9090/''\<rparr>]\<rparr>"
  have p: "py_int id ''9090'' = Inr 9090"
    by (simp add: py_int_def is_ascii_def strip_def is_space_def unsigned_def int_literal_def
        is_digit_def digit_val_def int_max_str_digits_def)
  have s: "str_int 9090 = ''9090''"
    by (simp add: str_int_def str_nat.simps digit_char_def)
  have h: "startup id [(''PORT'', ''9090'')] = Inr ?st"
    by (simp add: startup_def read_port_def getenv_def p on_startup_def logger_info_def s)
  have d: "list_all is_digit ''9090''" by (simp add: is_digit_def)
  show ?thesis
    using h d port_fixed_positive_for_numerals [OF h, of "\<lambda>rq. JSONResponse []"
      "[(\<lparr>year = 2026, month = 11, day = 4, hour = 7, minute = 24, second = 0\<rparr>,
         \<lparr>request_method = ''GET'', path = ''/healthz''\<rparr>)]" "''9090''"]
    by simp
qed

text \<open>
  As the specification states it, for every value of \<open>PORT\<close>, the property fails:
  \<open>PORT=0\<close> starts the process with port 0, and \<open>PORT=-5\<close> is read as \<open>-5\<close>.  Both values
  are ASCII, so the table \<open>to_ascii\<close> plays no part.
\<close>

theorem port_not_positive_counterexample:
  "read_port id [(''PORT'', ''0'')] = Inr 0 \<and>
   startup id [(''PORT'', ''0'')] =
     Inr \<lparr>PORT = 0,
          emitted = [\<lparr>levelname = ''INFO'', logger_name = ''app'',
                      message = ''Listening on http://0.0.0.0:0/''\<rparr>]\<rparr> \<and>
   read_port id [(''PORT'', ''-5'')] = Inr (- 5)"
proof -
  have 0: "py_int id ''0'' = Inr 0"
    by (simp add: py_int_def is_ascii_def strip_def is_space_def unsigned_def int_literal_def
        is_digit_def digit_val_def int_max_str_digits_def)
  have 5: "py_int id ''-5'' = Inr (- 5)"
    by (simp add: py_int_def is_ascii_def strip_def is_space_def unsigned_def int_literal_def
        is_digit_def digit_val_def int_max_str_digits_def)
  have s: "str_int 0 = ''0''"
    by (simp add: str_int_def str_nat.simps digit_char_def)
  show ?thesis
    by (simp add: startup_def read_port_def getenv_def 0 5 on_startup_def logger_info_def s)
qed

subsection \<open>Route claims\<close>

text \<open>
  C3: every call of \<open>GET /healthz\<close>, in whatever state the process is and whatever it
  served before, answers with status 200, the JSON media type and the body
  \<open>{"status": "ok"}\<close>.
\<close>

theorem healthz_response:
  "fst (app other now \<lparr>request_method = ''GET'', path = ''/healthz''\<rparr> st) =
     Inr \<lparr>status_code = 200, media_type = ''application/json'', body = JSON [(''status'', ''ok'')]\<rparr> \<and>
   fst (app other now \<lparr>request_method = ''GET'', path = ''/healthz''\<rparr> (serve other rqs st)) =
     Inr \<lparr>status_code = 200, media_type = ''application/json'', body = JSON [(''status'', ''ok'')]\<rparr>"
  by (simp add: app_healthz)

text \<open>
  C7: every call of \<open>GET /\<close> answers with status 200 and the HTML media type; the body
  is the page rendered from the current UTC time and the configured port, and contains
  both.  The time has the shape \<open>YYYY-MM-DD HH:MM:SS UTC\<close> for a clock value with a year of
  four digits.  The configured port is one that \<open>str\<close> converts, as the port of every
  started process is, whatever it has served.
\<close>

theorem root_response:
  "(\<bar>PORT st\<bar> < 10 ^ int_max_str_digits \<longrightarrow>
      (\<exists>doc. fst (app other now \<lparr>request_method = ''GET'', path = ''/''\<rparr> st) =
           Inr \<lparr>status_code = 200, media_type = ''text/html'', body = HTML doc\<rparr> \<and>
         render_page (strftime now ''%Y-%m-%d %H:%M:%S UTC'') (PORT st) = Inr doc \<and>
         sublist (strftime now ''%Y-%m-%d %H:%M:%S UTC'') doc \<and>
         sublist (str_int (PORT st)) doc \<and>
         (valid_datetime now \<and> 1000 \<le> year now \<longrightarrow>
            utc_stamp (strftime now ''%Y-%m-%d %H:%M:%S UTC'')))) \<and>
   (startup to_ascii environ = Inr st0 \<longrightarrow>
      \<bar>PORT (serve other rqs st0)\<bar> < 10 ^ int_max_str_digits)"
proof (intro conjI impI)
  assume "\<bar>PORT st\<bar> < 10 ^ int_max_str_digits"
  then have w: "within_str_digits (PORT st)" by (simp only: within_str_digits_iff)
  let ?t = "strftime now ''%Y-%m-%d %H:%M:%S UTC''"
  let ?doc = "unbrace template_head @ ?t @ unbrace template_mid @ str_int (PORT st) @
    unbrace template_tail"
  have "sublist (str_int (PORT st))
      ((unbrace template_head @ ?t @ unbrace template_mid) @ str_int (PORT st) @ unbrace template_tail)"
    by (rule sublist_appendI)
  then have "sublist (str_int (PORT st)) ?doc" by (simp del: strftime.simps)
  moreover have "sublist ?t ?doc" by (rule sublist_appendI)
  moreover have "valid_datetime now \<and> 1000 \<le> year now \<longrightarrow> utc_stamp ?t"
    using utc_stamp_strftime by blast
  ultimately show "\<exists>doc. fst (app other now \<lparr>request_method = ''GET'', path = ''/''\<rparr> st) =
           Inr \<lparr>status_code = 200, media_type = ''text/html'', body = HTML doc\<rparr> \<and>
         render_page ?t (PORT st) = Inr doc \<and> sublist ?t doc \<and>
         sublist (str_int (PORT st)) doc \<and>
         (valid_datetime now \<and> 1000 \<le> year now \<longrightarrow> utc_stamp ?t)"
    using app_root [OF w, of other now] render_page_eq [OF w, of ?t] by blast
next
  assume "startup to_ascii environ = Inr st0"
  then have "within_str_digits (PORT (serve other rqs st0))" by (rule started_within)
  then show "\<bar>PORT (serve other rqs st0)\<bar> < 10 ^ int_max_str_digits"
    by (simp only: within_str_digits_iff)
qed

theorem root_response_witness:
  "startup id [] = Inr \<lparr>PORT = 8080,
      emitted = [\<lparr>levelname = ''INFO'', logger_name = ''app'',
                  message = ''Listening on http://0.0.0.0:8080/''\<rparr>]\<rparr> \<and>
   \<bar>8080 :: int\<bar> < 10 ^ int_max_str_digits \<and>
   valid_datetime \<lparr>year = 2026, month = 11, day = 4, hour = 7, minute = 24, second = 0\<rparr> \<and>
   (1000 :: nat) \<le> year \<lparr>year = 2026, month = 11, day = 4, hour = 7, minute = 24, second = 0\<rparr> \<and>
   strftime \<lparr>year = 2026, month = 11, day = 4, hour = 7, minute = 24, second = 0\<rparr>
     ''%Y-%m-%d %H:%M:%S UTC'' = ''2026-11-04 07:24:00 UTC'' \<and>
   utc_stamp ''2026-11-04 07:24:00 UTC'' \<and>
   (\<exists>doc. fst (app (\<lambda>rq. JSONResponse [])
        \<lparr>year = 2026, month = 11, day = 4, hour = 7, minute = 24, second = 0\<rparr>
        \<lparr>request_method = ''GET'', path = ''/''\<rparr>
        \<lparr>PORT = 8080,
         emitted = [\<lparr>levelname = ''INFO'', logger_name = ''app'',
                     message = ''Listening on http://0.0.0.0:8080/''\<rparr>]\<rparr>) =
      Inr \<lparr>status_code = 200, media_type = ''text/html'', body = HTML doc\<rparr> \<and>
      sublist ''2026-11-04 07:24:00 UTC'' doc \<and> sublist (str_int 8080) doc)"
proof -
  let ?now = "\<lparr>year = 2026, month = 11, day = 4, hour = 7, minute = 24, second = 0\<rparr>"
  let ?st = "\<lparr>PORT = 8080,
    emitted = [\<lparr>levelname = ''INFO'', logger_name = ''app'',
                message = ''Listening on http://0.0.0.0:8080/''\<rparr>]\<rparr>"
  have s: "str_int 8080 = ''8080''"
    by (simp add: str_int_def str_nat.simps digit_char_def)
  have h: "startup id [] = Inr ?st"
    using startup_ok [OF read_port_unset, of "[]" id] by (simp add: s)
  have v: "valid_datetime ?now" by (simp add: valid_datetime_def)
  have y: "(1000 :: nat) \<le> year ?now" by simp
  have t: "strftime ?now ''%Y-%m-%d %H:%M:%S UTC'' = ''2026-11-04 07:24:00 UTC''"
    by (simp add: directive_def zfill_def str_nat.simps digit_char_def)
  have w: "\<bar>PORT ?st\<bar> < 10 ^ int_max_str_digits"
    using h root_response [of _ _ _ id "[]" ?st "[]"] by simp
  have "\<exists>doc. fst (app (\<lambda>rq. JSONResponse []) ?now
        \<lparr>request_method = ''GET'', path = ''/''\<rparr> ?st) =
      Inr \<lparr>status_code = 200, media_type = ''text/html'', body = HTML doc\<rparr> \<and>
      sublist ''2026-11-04 07:24:00 UTC'' doc \<and> sublist (str_int 8080) doc"
    using w root_response [of ?st "\<lambda>rq. JSONResponse []" ?now id "[]" ?st "[]"]
    unfolding t by auto
  then show ?thesis
    using h v y w t by (simp add: utc_stamp_def is_digit_def)
qed

subsection \<open>Middleware claims\<close>

text \<open>
  C4: for every request the logging middleware emits exactly one log line, after the
  wrapped handler has produced its response, and the line contains the method and the
  path of the request and the status code of the response.  This holds for any
  downstream handler that returns a response, and the routes of the application return
  one for every request, the configured port being one that \<open>str\<close> converts, as the port
  of every started process is.
\<close>

theorem log_requests_one_line:
  "(call_next rq st = (Inr rs, st1) \<longrightarrow>
      log_requests rq call_next st =
        (Inr rs, st1\<lparr>emitted := emitted st1 @
           [\<lparr>levelname = ''INFO'', logger_name = ''app'', message = request_line rq rs\<rparr>]\<rparr>)) \<and>
   sublist (request_method rq) (request_line rq rs) \<and>
   sublist (path rq) (request_line rq rs) \<and>
   sublist (str_int (status_code rs)) (request_line rq rs) \<and>
   (\<bar>PORT st\<bar> < 10 ^ int_max_str_digits \<longrightarrow>
      (\<exists>rs'. app other now rq st =
         (Inr rs', st\<lparr>emitted := emitted st @
            [\<lparr>levelname = ''INFO'', logger_name = ''app'', message = request_line rq rs'\<rparr>]\<rparr>))) \<and>
   (startup to_ascii environ = Inr st0 \<longrightarrow>
      \<bar>PORT (serve other rqs st0)\<bar> < 10 ^ int_max_str_digits)"
proof -
  have "call_next rq st = (Inr rs, st1) \<longrightarrow>
      log_requests rq call_next st =
        (Inr rs, st1\<lparr>emitted := emitted st1 @
           [\<lparr>levelname = ''INFO'', logger_name = ''app'', message = request_line rq rs\<rparr>]\<rparr>)"
    by (simp add: log_requests_response logger_info_def)
  moreover have "\<exists>rs'. app other now rq st =
      (Inr rs', st\<lparr>emitted := emitted st @
         [\<lparr>levelname = ''INFO'', logger_name = ''app'', message = request_line rq rs'\<rparr>]\<rparr>)"
    if "\<bar>PORT st\<bar> < 10 ^ int_max_str_digits"
  proof -
    have "within_str_digits (PORT st)" using that by (simp only: within_str_digits_iff)
    then show ?thesis using app_one_line [of st other now rq] by (simp add: logger_info_def)
  qed
  moreover have "\<bar>PORT (serve other rqs st0)\<bar> < 10 ^ int_max_str_digits"
    if "startup to_ascii environ = Inr st0"
    using started_within [OF that, of other rqs] by (simp only: within_str_digits_iff)
  ultimately show ?thesis
    using request_line_contains by blast
qed

theorem log_requests_one_line_witness:
  "(\<lambda>rq st. (Inr (JSONResponse healthz), st :: server_state))
      \<lparr>request_method = ''GET'', path = ''/healthz''\<rparr> \<lparr>PORT = 8080, emitted = []\<rparr> =
     (Inr (JSONResponse healthz), \<lparr>PORT = 8080, emitted = []\<rparr>) \<and>
   log_requests \<lparr>request_method = ''GET'', path = ''/healthz''\<rparr>
      (\<lambda>rq st. (Inr (JSONResponse healthz), st)) \<lparr>PORT = 8080, emitted = []\<rparr> =
     (Inr (JSONResponse healthz),
      \<lparr>PORT = 8080,
       emitted = [\<lparr>levelname = ''INFO'', logger_name = ''app'',
                   message = ''GET /healthz '' @ arrow @ '' 200''\<rparr>]\<rparr>) \<and>
   \<bar>8080 :: int\<bar> < 10 ^ int_max_str_digits \<and>
   (\<exists>rs'. app (\<lambda>rq. JSONResponse [])
        \<lparr>year = 2026, month = 11, day = 4, hour = 7, minute = 24, second = 0\<rparr>
        \<lparr>request_method = ''GET'', path = ''/''\<rparr> \<lparr>PORT = 8080, emitted = []\<rparr> =
      (Inr rs',
       \<lparr>PORT = 8080,
        emitted = [\<lparr>levelname = ''INFO'', logger_name = ''app'',
                    message = request_line \<lparr>request_method = ''GET'', path = ''/''\<rparr> rs'\<rparr>]\<rparr>))"
proof -
  have s: "str_int 200 = ''200''"
    by (simp add: str_int_def str_nat.simps digit_char_def)
  have w: "\<bar>8080 :: int\<bar> < 10 ^ int_max_str_digits"
    using port_number_within [of 8080] by simp
  have 1: "log_requests \<lparr>request_method = ''GET'', path = ''/healthz''\<rparr>
      (\<lambda>rq st. (Inr (JSONResponse healthz), st)) \<lparr>PORT = 8080, emitted = []\<rparr> =
     (Inr (JSONResponse healthz),
      \<lparr>PORT = 8080,
       emitted = [\<lparr>levelname = ''INFO'', logger_name = ''app'',
                   message = ''GET /healthz '' @ arrow @ '' 200''\<rparr>]\<rparr>)"
    using log_requests_one_line [of "\<lambda>rq st. (Inr (JSONResponse healthz), st)"
      "\<lparr>request_method = ''GET'', path = ''/healthz''\<rparr>" "\<lparr>PORT = 8080, emitted = []\<rparr>"
      "JSONResponse healthz" "\<lparr>PORT = 8080, emitted = []\<rparr>"]
    by (simp add: request_line_def JSONResponse_def s)
  have 2: "\<exists>rs'. app (\<lambda>rq. JSONResponse [])
        \<lparr>year = 2026, month = 11, day = 4, hour = 7, minute = 24, second = 0\<rparr>
        \<lparr>request_method = ''GET'', path = ''/''\<rparr> \<lparr>PORT = 8080, emitted = []\<rparr> =
      (Inr rs',
       \<lparr>PORT = 8080,
        emitted = [\<lparr>levelname = ''INFO'', logger_name = ''app'',
                    message = request_line \<lparr>request_method = ''GET'', path = ''/''\<rparr> rs'\<rparr>]\<rparr>)"
    using w log_requests_one_line [of _ "\<lparr>request_method = ''GET'', path = ''/''\<rparr>"
      "\<lparr>PORT = 8080, emitted = []\<rparr>" _ _ "\<lambda>rq. JSONResponse []"
      "\<lparr>year = 2026, month = 11, day = 4, hour = 7, minute = 24, second = 0\<rparr>"]
    by simp
  show ?thesis using 1 2 w by simp
qed

text \<open>
  C5: whatever the request and the downstream handler, what the middleware returns is
  what the handler returned, status, media type and body alike; an exception of the
  handler is passed on as it is.  The application wraps every route in the middleware,
  so the same holds for each of its routes.
\<close>

theorem log_requests_keeps_response:
  "fst (log_requests rq call_next st) = fst (call_next rq st) \<and>
   fst (app other now rq st) = fst (router other now rq st)"
proof -
  have "fst (log_requests rq f st) = fst (f rq st)" for f
  proof (cases "f rq st")
    case (Pair r st1)
    then show ?thesis by (cases r) (simp_all add: log_requests_def)
  qed
  then show ?thesis by (simp add: app_def)
qed

subsection \<open>Startup claim\<close>

text \<open>
  C9: when the process starts with a port it could read, the startup hook emits exactly
  one log line, \<open>Listening on http://0.0.0.0:<port>/\<close> with the configured port, and it
  is emitted before any request is served: it stays the first line of the log, followed
  by one line for each request.
\<close>

theorem startup_log_line:
  assumes "read_port to_ascii environ = Inr p"
  shows "\<exists>st. startup to_ascii environ = Inr st \<and> PORT st = p \<and>
    emitted st = [\<lparr>levelname = ''INFO'', logger_name = ''app'',
                   message = ''Listening on http://0.0.0.0:'' @ str_int p @ ''/''\<rparr>] \<and>
    (\<exists>ls. emitted (serve other rqs st) =
       \<lparr>levelname = ''INFO'', logger_name = ''app'',
        message = ''Listening on http://0.0.0.0:'' @ str_int p @ ''/''\<rparr> # ls \<and>
       length ls = length rqs)"
proof -
  let ?st = "\<lparr>PORT = p,
    emitted = [\<lparr>levelname = ''INFO'', logger_name = ''app'',
                message = ''Listening on http://0.0.0.0:'' @ str_int p @ ''/''\<rparr>]\<rparr>"
  have "startup to_ascii environ = Inr ?st" using assms by (rule startup_ok)
  moreover have "within_str_digits (PORT ?st)" using read_port_within [OF assms] by simp
  then obtain ls where "emitted (serve other rqs ?st) = emitted ?st @ ls" "length ls = length rqs"
    using serve_emitted by blast
  ultimately show ?thesis by auto
qed

theorem startup_log_line_witness:
  "read_port id [] = Inr 8080 \<and>
   startup id [] =
     Inr \<lparr>PORT = 8080,
          emitted = [\<lparr>levelname = ''INFO'', logger_name = ''app'',
                      message = ''Listening on http://0.0.0.0:8080/''\<rparr>]\<rparr>"
proof -
  have h: "read_port id [] = Inr 8080" by (simp add: read_port_unset)
  have s: "str_int 8080 = ''8080''"
    by (simp add: str_int_def str_nat.simps digit_char_def)
  show ?thesis
    using h startup_log_line [OF h, of "\<lambda>rq. JSONResponse []" "[]"] unfolding s by auto
qed

end
